theory Spec2Isabelle
  imports Main "HOL-Library.Multiset"
begin

section \<open>Data model\<close>

text \<open>
  A Python \<open>datetime\<close> object carries its wall-clock fields and, when it is
  timezone-aware, the offset of its zone from UTC. The wall-clock fields are represented
  by the number of microseconds since midnight of day ordinal 0, the offset by a number of
  microseconds; \<open>utcoffset = None\<close> is a naive datetime.
\<close>

record py_datetime =
  wall :: int
  utcoffset :: "int option"

text \<open>
  Two naive datetimes are ordered and subtracted by their wall-clock fields, two aware
  ones by their UTC instants. The position on that timeline is a \<open>datetime\<close> number;
  the scan of a sorted list works with these numbers.
\<close>

type_synonym datetime = int

definition instant :: "py_datetime \<Rightarrow> datetime" where
  "instant dt = (case utcoffset dt of None \<Rightarrow> wall dt | Some off \<Rightarrow> wall dt - off)"

definition naive :: "int \<Rightarrow> py_datetime" where
  "naive w = \<lparr>wall = w, utcoffset = None\<rparr>"

definition aware :: "int \<Rightarrow> int \<Rightarrow> py_datetime" where
  "aware w off = \<lparr>wall = w, utcoffset = Some off\<rparr>"

definition us_per_day :: int where
  "us_per_day = 86400000000"

text \<open>\<open>timedelta.days\<close>: the normalised day component, i.e. floor division.\<close>

definition td_days :: "int \<Rightarrow> int" where
  "td_days td = td div us_per_day"

text \<open>\<open>datetime.date()\<close>, as the day ordinal: the date of the wall-clock fields.\<close>

definition date_of :: "py_datetime \<Rightarrow> int" where
  "date_of dt = wall dt div us_per_day"

datatype py_error = ValueError | TypeError | IndexError

text \<open>
  \<open>sorted\<close> on a list of datetimes. Ordering a naive against an aware datetime raises
  \<open>TypeError\<close>, and sorting a list that holds both kinds has to order such a pair, so
  it raises; a list of one kind is sorted, and its dates are given by their positions on
  the common timeline.
\<close>

definition mixed_awareness :: "py_datetime list \<Rightarrow> bool" where
  "mixed_awareness ds \<longleftrightarrow>
     list_ex (\<lambda>a. utcoffset a = None) ds \<and> list_ex (\<lambda>a. utcoffset a \<noteq> None) ds"

definition py_sorted :: "py_datetime list \<Rightarrow> py_error + datetime list" where
  "py_sorted ds = (if mixed_awareness ds then Inl TypeError else Inr (sort (map instant ds)))"

text \<open>Rows as the storage layer returns them (\<open>dict(zip(column_names, row))\<close>).\<close>

record completion_row =
  id_completion :: int
  habit_id :: int
  completed_date :: "string option"

record habit_row =
  id_habit :: int
  user_id :: int
  name :: string
  description :: string
  periodicity :: int
  creation_date :: string

text \<open>
  The analytics functions receive the storage handler as the argument \<open>db\<close> and use three
  of its accessors.
\<close>

record db =
  db_get_all_habits :: "int \<Rightarrow> habit_row list"
  db_get_completions :: "int \<Rightarrow> completion_row list"
  db_get_last_completion :: "int \<Rightarrow> completion_row option"

text \<open>
  \<open>datetime.fromisoformat\<close> belongs to the Python library; it is a parameter \<open>parse\<close> of every
  function that parses, with \<open>None\<close> standing for the raised \<open>ValueError\<close>.
\<close>

type_synonym iso_parser = "string \<Rightarrow> py_datetime option"

section \<open>analytics.get\_longest\_streak\_for\_habit\<close>

text \<open>The inner function \<open>streak_reducer\<close>; \<open>P\<close> is the enclosing \<open>periodicity\<close>.\<close>

fun streak_reducer :: "int \<Rightarrow> datetime \<times> int \<times> int \<Rightarrow> datetime \<Rightarrow> datetime \<times> int \<times> int" where
  "streak_reducer P (prev_date, streak, max_streak) curr_date =
     (let diff = td_days (curr_date - prev_date) in
      if (P = 1 \<and> diff = 1) \<or> (P > 1 \<and> 1 \<le> diff \<and> diff \<le> P)
      then (curr_date, streak + 1, max max_streak (streak + 1))
      else (curr_date, 1, max max_streak streak))"

text \<open>
  The list comprehension inside the \<open>try\<close> (its result is then passed to \<open>sorted\<close>,
  inside the \<open>try\<close> as well): rows whose \<open>completed_date\<close> is \<open>None\<close> are
  skipped, and the first string that does not parse raises (result \<open>None\<close>).
\<close>

fun parse_dates :: "iso_parser \<Rightarrow> completion_row list \<Rightarrow> py_datetime list option" where
  "parse_dates parse [] = Some []"
| "parse_dates parse (c # cs) =
     (case completed_date c of
        None \<Rightarrow> parse_dates parse cs
      | Some s \<Rightarrow>
          (case parse s of
             None \<Rightarrow> None
           | Some d \<Rightarrow>
               (case parse_dates parse cs of
                  None \<Rightarrow> None
                | Some ds \<Rightarrow> Some (d # ds))))"

text \<open>
  The part of the function after the \<open>try\<close> block, on the sorted list \<open>dates\<close>:
  \<open>dates[0]\<close> raises \<open>IndexError\<close> on the empty list.
\<close>

definition streak_of_dates :: "int \<Rightarrow> datetime list \<Rightarrow> py_error + int" where
  "streak_of_dates P dates =
     (if length dates = 1 then Inr 1
      else (case dates of
              [] \<Rightarrow> Inl IndexError
            | d0 # rest \<Rightarrow>
                (case foldl (streak_reducer P) (d0, 1, 1) rest of
                   (_, final_streak, max_streak) \<Rightarrow> Inr max_streak)))"

definition longest_streak_of_completions ::
  "iso_parser \<Rightarrow> completion_row list \<Rightarrow> int \<Rightarrow> py_error + int" where
  "longest_streak_of_completions parse completions P =
     (if completions = [] then Inr 0
      else (case parse_dates parse completions of
              None \<Rightarrow> Inr 0
            | Some ds \<Rightarrow>
                (case py_sorted ds of
                   Inl e \<Rightarrow> Inr 0
                 | Inr dates \<Rightarrow> streak_of_dates P dates)))"

definition get_longest_streak_for_habit ::
  "iso_parser \<Rightarrow> db \<Rightarrow> int \<Rightarrow> int \<Rightarrow> py_error + int" where
  "get_longest_streak_for_habit parse d hid P =
     longest_streak_of_completions parse (db_get_completions d hid) P"

text \<open>
  The call as its caller sees it: the returned value together with the contents of the
  list object bound to \<open>completions\<close> when the call ends. The function only reads that
  list (the truth test and the comprehension); \<open>sorted\<close> builds a new list, and nothing is
  assigned into \<open>completions\<close>.
\<close>

definition longest_streak_call ::
  "iso_parser \<Rightarrow> completion_row list \<Rightarrow> int \<Rightarrow> (py_error + int) \<times> completion_row list" where
  "longest_streak_call parse completions P =
     (longest_streak_of_completions parse completions P, completions)"

section \<open>analytics.get\_all\_streaks\<close>

text \<open>
  The list comprehension of the inner \<open>calculate_streak\<close>: there is no filter and no
  \<open>try\<close>, so \<open>fromisoformat(None)\<close> raises \<open>TypeError\<close> and a string that does not parse
  raises \<open>ValueError\<close>.
\<close>

fun parse_all :: "iso_parser \<Rightarrow> completion_row list \<Rightarrow> py_error + py_datetime list" where
  "parse_all parse [] = Inr []"
| "parse_all parse (c # cs) =
     (case completed_date c of
        None \<Rightarrow> Inl TypeError
      | Some s \<Rightarrow>
          (case parse s of
             None \<Rightarrow> Inl ValueError
           | Some d \<Rightarrow>
               (case parse_all parse cs of
                  Inl e \<Rightarrow> Inl e
                | Inr ds \<Rightarrow> Inr (d # ds))))"

text \<open>The loop \<open>for i in range(1, len(dates))\<close>, entered with \<open>i = 1\<close>.\<close>

function streak_loop :: "int \<Rightarrow> datetime list \<Rightarrow> nat \<Rightarrow> int \<Rightarrow> int \<Rightarrow> int \<times> int" where
  "streak_loop P dates i max_streak current_streak =
     (if i < length dates then
        (let diff = td_days (dates ! i - dates ! (i - 1)) in
         if 1 \<le> diff \<and> diff \<le> P
         then streak_loop P dates (i + 1) max_streak (current_streak + 1)
         else streak_loop P dates (i + 1) (max max_streak current_streak) 1)
      else (max_streak, current_streak))"
  by pat_completeness auto
termination
  by (relation "measure (\<lambda>(P, dates, i, m, c). length dates - i)") auto

definition calculate_streak :: "iso_parser \<Rightarrow> db \<Rightarrow> habit_row \<Rightarrow> py_error + int" where
  "calculate_streak parse d habit =
     (let completions = db_get_completions d (id_habit habit) in
      if completions = [] then Inr 0
      else (case parse_all parse completions of
              Inl e \<Rightarrow> Inl e
            | Inr ds \<Rightarrow>
                (case py_sorted ds of
                   Inl e \<Rightarrow> Inl e
                 | Inr dates \<Rightarrow>
                     (case streak_loop (periodicity habit) dates 1 1 1 of
                        (max_streak, current_streak) \<Rightarrow> Inr (max max_streak current_streak)))))"

text \<open>A comprehension or \<open>map\<close> whose body may raise: the first error ends it.\<close>

fun map_result :: "('a \<Rightarrow> py_error + 'b) \<Rightarrow> 'a list \<Rightarrow> py_error + 'b list" where
  "map_result f [] = Inr []"
| "map_result f (x # xs) =
     (case f x of
        Inl e \<Rightarrow> Inl e
      | Inr y \<Rightarrow> (case map_result f xs of Inl e \<Rightarrow> Inl e | Inr ys \<Rightarrow> Inr (y # ys)))"

text \<open>Each result dictionary \<open>{"name": ..., "streak": ...}\<close> is the pair of its two values.\<close>

definition get_all_streaks :: "iso_parser \<Rightarrow> db \<Rightarrow> int \<Rightarrow> py_error + (string \<times> int) list" where
  "get_all_streaks parse d uid =
     (let habits = db_get_all_habits d uid in
      if habits = [] then Inr []
      else map_result
             (\<lambda>h. case calculate_streak parse d h of
                    Inl e \<Rightarrow> Inl e
                  | Inr v \<Rightarrow> Inr (name h, v))
             habits)"

section \<open>analytics.get\_longest\_streak\<close>

text \<open>
  Python's \<open>max(iterable, key=..., default=...)\<close>: the default for an empty iterable,
  otherwise the first item whose key is not exceeded (an item replaces the current best
  only when its key is strictly greater).
\<close>

fun py_max_key :: "('a \<Rightarrow> int) \<Rightarrow> 'a list \<Rightarrow> 'a \<Rightarrow> 'a" where
  "py_max_key key [] dflt = dflt"
| "py_max_key key (x # xs) dflt =
     foldl (\<lambda>best y. if key y > key best then y else best) x xs"

definition get_longest_streak ::
  "iso_parser \<Rightarrow> db \<Rightarrow> int \<Rightarrow> py_error + (habit_row option \<times> int)" where
  "get_longest_streak parse d uid =
     (let habits = db_get_all_habits d uid in
      if habits = [] then Inr (None, 0)
      else (case map_result
                   (\<lambda>habit.
                      case get_longest_streak_for_habit parse d (id_habit habit) (periodicity habit) of
                        Inl e \<Rightarrow> Inl e
                      | Inr v \<Rightarrow> Inr (Some habit, v))
                   habits of
              Inl e \<Rightarrow> Inl e
            | Inr streaks \<Rightarrow> Inr (py_max_key snd streaks (None, 0))))"

section \<open>analytics.get\_habits\_to\_complete\_today\<close>

text \<open>
  The inner predicate \<open>is_due_today\<close>; \<open>today\<close> is the day ordinal of the enclosing
  \<open>today\<close>. The difference of two dates is a whole number of days.
\<close>

definition is_due_today :: "iso_parser \<Rightarrow> db \<Rightarrow> int \<Rightarrow> habit_row \<Rightarrow> py_error + bool" where
  "is_due_today parse d today habit =
     (case db_get_last_completion d (id_habit habit) of
        None \<Rightarrow> Inr True
      | Some last_completion \<Rightarrow>
          (case completed_date last_completion of
             None \<Rightarrow> Inl TypeError
           | Some s \<Rightarrow>
               (case parse s of
                  None \<Rightarrow> Inl ValueError
                | Some dt \<Rightarrow> Inr (today - date_of dt \<ge> periodicity habit))))"

fun filter_result :: "('a \<Rightarrow> py_error + bool) \<Rightarrow> 'a list \<Rightarrow> py_error + 'a list" where
  "filter_result f [] = Inr []"
| "filter_result f (x # xs) =
     (case f x of
        Inl e \<Rightarrow> Inl e
      | Inr b \<Rightarrow>
          (case filter_result f xs of
             Inl e \<Rightarrow> Inl e
           | Inr ys \<Rightarrow> Inr (if b then x # ys else ys)))"

text \<open>\<open>now\<close> is the value of \<open>datetime.now()\<close> at the call.\<close>

definition get_habits_to_complete_today ::
  "iso_parser \<Rightarrow> db \<Rightarrow> py_datetime \<Rightarrow> int \<Rightarrow> py_error + habit_row list" where
  "get_habits_to_complete_today parse d now uid =
     (let today = date_of now; habits = db_get_all_habits d uid
      in filter_result (is_due_today parse d today) habits)"

section \<open>models.habit.Habit\<close>




section \<open>The reference fixture\<close>

text \<open>
  The strings used by the fixture of \<open>test_analytics.py\<close> with the datetimes they denote.
\<close>

definition fixture_iso :: iso_parser where
  "fixture_iso = map_of
     [(''2023-08-30T15:00:00'', naive 63829090800000000),
      (''2023-08-31T15:00:00'', naive 63829177200000000),
      (''2023-09-01T15:00:00'', naive 63829263600000000),
      (''2023-09-04T15:00:00'', naive 63829522800000000),
      (''2023-09-06T15:00:00'', naive 63829695600000000),
      (''2023-09-09T15:00:00'', naive 63829954800000000),
      (''2023-08-31T15:00:00+00:00'', aware 63829177200000000 0)]"

definition fixture_habits :: "habit_row list" where
  "fixture_habits =
     [\<lparr>id_habit = 1, user_id = 1, name = ''Exercise'',
       description = ''Do 30 minutes of exercise every day'', periodicity = 1,
       creation_date = ''2023-08-30T14:23:55''\<rparr>,
      \<lparr>id_habit = 2, user_id = 1, name = ''Reading'',
       description = ''Read for 30 minutes every week'', periodicity = 7,
       creation_date = ''2023-08-30T14:23:55''\<rparr>,
      \<lparr>id_habit = 3, user_id = 1, name = ''Meditation'',
       description = ''Meditate every 5 days'', periodicity = 5,
       creation_date = ''2023-08-30T14:23:55''\<rparr>]"

definition fixture_completions :: "completion_row list" where
  "fixture_completions =
     [\<lparr>id_completion = 1, habit_id = 1, completed_date = Some ''2023-08-30T15:00:00''\<rparr>,
      \<lparr>id_completion = 2, habit_id = 1, completed_date = Some ''2023-08-31T15:00:00''\<rparr>,
      \<lparr>id_completion = 3, habit_id = 3, completed_date = Some ''2023-09-04T15:00:00''\<rparr>,
      \<lparr>id_completion = 4, habit_id = 2, completed_date = Some ''2023-08-30T15:00:00''\<rparr>]"

text \<open>
  The handler's queries on these tables: \<open>WHERE user_id = ?\<close>, \<open>WHERE habit_id = ?\<close>, and the
  row with the latest \<open>completed_date\<close> of each habit.
\<close>

definition fixture_db :: db where
  "fixture_db =
     \<lparr>db_get_all_habits = (\<lambda>u. filter (\<lambda>h. user_id h = u) fixture_habits),
      db_get_completions = (\<lambda>i. filter (\<lambda>c. habit_id c = i) fixture_completions),
      db_get_last_completion = (\<lambda>i.
         if i = 1 then Some (fixture_completions ! 1)
         else if i = 2 then Some (fixture_completions ! 3)
         else if i = 3 then Some (fixture_completions ! 2)
         else None)\<rparr>"

text \<open>
  A storage handler whose habit 1 has the given completions, and three collections: one
  with a row without a timestamp, one that holds a naive and a timezone-aware timestamp,
  one with a row whose timestamp does not parse.
\<close>

definition example_db :: "completion_row list \<Rightarrow> db" where
  "example_db cs =
     \<lparr>db_get_all_habits = (\<lambda>u. if u = 1 then [fixture_habits ! 0] else []),
      db_get_completions = (\<lambda>i. if i = 1 then cs else []),
      db_get_last_completion = (\<lambda>i. None)\<rparr>"

definition completions_missing :: "completion_row list" where
  "completions_missing =
     [\<lparr>id_completion = 1, habit_id = 1, completed_date = Some ''2023-08-30T15:00:00''\<rparr>,
      \<lparr>id_completion = 2, habit_id = 1, completed_date = None\<rparr>,
      \<lparr>id_completion = 3, habit_id = 1, completed_date = Some ''2023-08-31T15:00:00''\<rparr>]"

definition completions_mixed :: "completion_row list" where
  "completions_mixed =
     [\<lparr>id_completion = 1, habit_id = 1, completed_date = Some ''2023-08-30T15:00:00''\<rparr>,
      \<lparr>id_completion = 2, habit_id = 1, completed_date = Some ''2023-08-31T15:00:00+00:00''\<rparr>]"

definition completions_malformed :: "completion_row list" where
  "completions_malformed =
     [\<lparr>id_completion = 1, habit_id = 1, completed_date = Some ''2023-08-30T15:00:00''\<rparr>,
      \<lparr>id_completion = 2, habit_id = 1, completed_date = Some ''31/08/2023''\<rparr>]"




section \<open>Continuation rule\<close>

text \<open>
  The continuation rule in the words of the specification: for \<open>P = 1\<close> the pair extends
  the streak only when \<open>diff = 1\<close>; for \<open>P > 1\<close> when \<open>1 \<le> diff \<le> P\<close>.
\<close>

definition spec_continues :: "int \<Rightarrow> int \<Rightarrow> bool" where
  "spec_continues P diff \<longleftrightarrow> (P = 1 \<and> diff = 1) \<or> (P > 1 \<and> 1 \<le> diff \<and> diff \<le> P)"

text \<open>
  The runs of a scanned sequence in the words of the specification: the sequence is cut
  between two adjacent dates exactly where the continuation rule \<open>R\<close> does not hold, so
  every piece is a maximal run; the streak of a run is its number of completions.
\<close>

fun runs_by :: "(datetime \<Rightarrow> datetime \<Rightarrow> bool) \<Rightarrow> datetime list \<Rightarrow> datetime list list" where
  "runs_by R [] = []"
| "runs_by R [d] = [[d]]"
| "runs_by R (a # b # ds) =
     (if R a b
      then (case runs_by R (b # ds) of [] \<Rightarrow> [[a]] | r # rs \<Rightarrow> (a # r) # rs)
      else [a] # runs_by R (b # ds))"

definition spec_runs :: "int \<Rightarrow> datetime list \<Rightarrow> datetime list list" where
  "spec_runs P = runs_by (\<lambda>a b. spec_continues P (td_days (b - a)))"

definition spec_run_lengths :: "int \<Rightarrow> datetime list \<Rightarrow> int list" where
  "spec_run_lengths P ds = map (\<lambda>r. int (length r)) (spec_runs P ds)"

text \<open>
  Bookkeeping for the proofs: the run lengths of \<open>prev # rest\<close> when the run ending at
  \<open>prev\<close> already counts \<open>s\<close> completions.
\<close>

fun run_lengths_from :: "int \<Rightarrow> int \<Rightarrow> datetime \<Rightarrow> datetime list \<Rightarrow> int list" where
  "run_lengths_from P s prev [] = [s]"
| "run_lengths_from P s prev (c # cs) =
     (if spec_continues P (td_days (c - prev))
      then run_lengths_from P (s + 1) c cs
      else s # run_lengths_from P 1 c cs)"

fun hd_add :: "int \<Rightarrow> int list \<Rightarrow> int list" where
  "hd_add k [] = []"
| "hd_add k (n # ns) = (n + k) # ns"

lemmas model_eval =
  naive_def aware_def instant_def mixed_awareness_def py_sorted_def td_days_def us_per_day_def

lemma py_sorted_single: "py_sorted [t] = Inr [instant t]"
  by (cases "utcoffset t") (simp_all add: py_sorted_def mixed_awareness_def)

lemma py_sorted_Inr:
  "py_sorted ds = Inr dates \<Longrightarrow>
     \<not> mixed_awareness ds \<and> dates = sort (map instant ds) \<and> length dates = length ds"
  by (auto simp: py_sorted_def split: if_splits)

lemma py_sorted_Inl: "py_sorted ds = Inl e \<Longrightarrow> mixed_awareness ds"
  by (auto simp: py_sorted_def split: if_splits)

lemma streak_reducer_step:
  "streak_reducer P (prev, s, m) cur =
     (if spec_continues P (td_days (cur - prev))
      then (cur, s + 1, max m (s + 1)) else (cur, 1, max m s))"
  by (simp add: spec_continues_def Let_def)

lemma streak_inv:
  "1 \<le> s \<Longrightarrow> s \<le> m \<Longrightarrow> foldl (streak_reducer P) (d, s, m) ds = (d', s', m')
     \<Longrightarrow> 1 \<le> s' \<and> s' \<le> m'"
proof (induction ds arbitrary: d s m)
  case Nil
  then show ?case by simp
next
  case (Cons x xs)
  show ?case
  proof (cases "spec_continues P (td_days (x - d))")
    case True
    then have "foldl (streak_reducer P) (x, s + 1, max m (s + 1)) xs = (d', s', m')"
      using Cons.prems(3) by (simp only: foldl_Cons streak_reducer_step if_True)
    moreover have "1 \<le> s + 1" "s + 1 \<le> max m (s + 1)" using Cons.prems(1) by simp_all
    ultimately show ?thesis using Cons.IH by blast
  next
    case False
    then have "foldl (streak_reducer P) (x, 1, max m s) xs = (d', s', m')"
      using Cons.prems(3) by (simp only: foldl_Cons streak_reducer_step if_False)
    moreover have "(1::int) \<le> 1" "1 \<le> max m s" using Cons.prems(1,2) by simp_all
    ultimately show ?thesis using Cons.IH by blast
  qed
qed

text \<open>
  C1. For every periodicity \<open>P \<ge> 1\<close> and every adjacent pair \<open>(prev, cur)\<close> reached by the
  scan (the accumulator is the result of folding the reducer over a prefix \<open>pre\<close>, starting
  from \<open>(d0, 1, 1)\<close>), the pair extends the running streak exactly when
  \<open>P = 1 \<and> diff = 1\<close> or \<open>P > 1 \<and> 1 \<le> diff \<le> P\<close>; a pair with \<open>diff = 0\<close> never extends;
  on extension the running streak grows by one, and otherwise it is reset to 1 while the
  maximum stays what it was.
\<close>

theorem C1_continuation_rule:
  assumes "P \<ge> 1"
    and "foldl (streak_reducer P) (d0, 1, 1) pre = (prev, s, m)"
    and "diff = td_days (cur - prev)"
  shows "streak_reducer P (prev, s, m) cur =
           (if (P = 1 \<and> diff = 1) \<or> (P > 1 \<and> 1 \<le> diff \<and> diff \<le> P)
            then (cur, s + 1, max m (s + 1))
            else (cur, 1, m))
         \<and> (diff = 0 \<longrightarrow> streak_reducer P (prev, s, m) cur = (cur, 1, m))"
proof -
  have inv: "1 \<le> s \<and> s \<le> m"
    using streak_inv [of 1 1 P d0 pre prev s m] assms(2) by simp
  then have mx: "max m s = m" by simp
  show ?thesis
    using mx assms(3) by (simp add: Let_def)
qed

theorem C1_continuation_rule_witness:
  "(1::int) \<ge> 1
   \<and> foldl (streak_reducer 1) (0, 1, 1) [86400000000] = (86400000000, 2, 2)
   \<and> (1::int) = td_days (172800000000 - 86400000000)
   \<and> streak_reducer 1 (86400000000, 2, 2) 172800000000 = (172800000000, 3, 3)"
proof -
  have a: "(1::int) \<ge> 1" by simp
  have b: "foldl (streak_reducer 1) (0, 1, 1) [86400000000] = (86400000000, 2, 2)"
    by (simp add: td_days_def us_per_day_def)
  have c: "(1::int) = td_days (172800000000 - 86400000000)"
    by (simp add: td_days_def us_per_day_def)
  from C1_continuation_rule [OF a b c]
  have "streak_reducer 1 (86400000000, 2, 2) 172800000000 = (172800000000, 3, 3)"
    by simp
  with a b c show ?thesis by blast
qed

section \<open>Empty and single-element collections\<close>

lemma parse_dates_filter:
  "parse_dates parse cs = parse_dates parse (filter (\<lambda>c. completed_date c \<noteq> None) cs)"
  by (induction cs) (auto split: option.splits)

text \<open>
  C5. For every periodicity \<open>P \<ge> 1\<close> the function returns 0 when the habit has no
  completions, and 1 when exactly one completion carries a timestamp and that timestamp
  parses (in particular on a one-element collection with a valid timestamp).
\<close>

theorem C5_empty_and_single:
  assumes "P \<ge> 1"
  shows "(db_get_completions d hid = [] \<longrightarrow> get_longest_streak_for_habit parse d hid P = Inr 0)
       \<and> (filter (\<lambda>c. completed_date c \<noteq> None) (db_get_completions d hid) = [c]
            \<and> completed_date c = Some s \<and> parse s = Some t
            \<longrightarrow> get_longest_streak_for_habit parse d hid P = Inr 1)"
proof (intro conjI impI)
  assume "db_get_completions d hid = []"
  then show "get_longest_streak_for_habit parse d hid P = Inr 0"
    by (simp add: get_longest_streak_for_habit_def longest_streak_of_completions_def)
next
  assume h: "filter (\<lambda>c. completed_date c \<noteq> None) (db_get_completions d hid) = [c]
            \<and> completed_date c = Some s \<and> parse s = Some t"
  then have ne: "db_get_completions d hid \<noteq> []" by auto
  have "parse_dates parse (db_get_completions d hid) = parse_dates parse [c]"
    using h parse_dates_filter [of parse "db_get_completions d hid"] by simp
  also have "\<dots> = Some [t]" using h by simp
  finally show "get_longest_streak_for_habit parse d hid P = Inr 1"
    using ne
    by (simp add: get_longest_streak_for_habit_def longest_streak_of_completions_def
        streak_of_dates_def py_sorted_single)
qed

theorem C5_empty_and_single_witness:
  "(5::int) \<ge> 1
   \<and> db_get_completions fixture_db 4 = []
   \<and> get_longest_streak_for_habit fixture_iso fixture_db 4 5 = Inr 0
   \<and> filter (\<lambda>c. completed_date c \<noteq> None) (db_get_completions fixture_db 3)
       = [fixture_completions ! 2]
   \<and> completed_date (fixture_completions ! 2) = Some ''2023-09-04T15:00:00''
   \<and> fixture_iso ''2023-09-04T15:00:00'' = Some (naive 63829522800000000)
   \<and> get_longest_streak_for_habit fixture_iso fixture_db 3 5 = Inr 1"
proof -
  have a: "(5::int) \<ge> 1" by simp
  have b: "db_get_completions fixture_db 4 = []"
    by (simp add: fixture_db_def fixture_completions_def)
  have c: "filter (\<lambda>c. completed_date c \<noteq> None) (db_get_completions fixture_db 3)
       = [fixture_completions ! 2]"
    by (simp add: fixture_db_def fixture_completions_def)
  have d: "completed_date (fixture_completions ! 2) = Some ''2023-09-04T15:00:00''"
    by (simp add: fixture_completions_def)
  have e: "fixture_iso ''2023-09-04T15:00:00'' = Some (naive 63829522800000000)"
    by (simp add: fixture_iso_def)
  have r0: "get_longest_streak_for_habit fixture_iso fixture_db 4 5 = Inr 0"
    using C5_empty_and_single [OF a, where d = fixture_db and hid = 4 and parse = fixture_iso] b
    by blast
  have r1: "get_longest_streak_for_habit fixture_iso fixture_db 3 5 = Inr 1"
    using C5_empty_and_single [OF a, where d = fixture_db and hid = 3
        and c = "fixture_completions ! 2" and s = "''2023-09-04T15:00:00''"
        and parse = fixture_iso and t = "naive 63829522800000000"] c d e
    by blast
  from a b c d e r0 r1 show ?thesis by blast
qed

section \<open>The result is the longest run\<close>

lemma runs_by_nonempty: "ds \<noteq> [] \<Longrightarrow> runs_by R ds \<noteq> []"
  by (induction R ds rule: runs_by.induct) (auto split: list.splits)

lemma concat_runs_by: "concat (runs_by R ds) = ds"
  by (induction R ds rule: runs_by.induct) (auto split: list.splits)

lemma runs_by_no_empty_run: "r \<in> set (runs_by R ds) \<Longrightarrow> r \<noteq> []"
  by (induction R ds arbitrary: r rule: runs_by.induct) (auto split: list.splits if_splits)

lemma spec_runs_nonempty: "ds \<noteq> [] \<Longrightarrow> spec_runs P ds \<noteq> []"
  by (simp add: spec_runs_def runs_by_nonempty)

lemma run_lengths_from_ne: "run_lengths_from P s prev rest \<noteq> []"
  by (induction rest arbitrary: s prev) auto

lemma run_lengths_from_spec:
  "run_lengths_from P s prev rest = hd_add (s - 1) (spec_run_lengths P (prev # rest))"
proof (induction rest arbitrary: s prev)
  case Nil
  then show ?case by (simp add: spec_run_lengths_def spec_runs_def)
next
  case (Cons c cs)
  obtain r rs where rr: "runs_by (\<lambda>a b. spec_continues P (td_days (b - a))) (c # cs) = r # rs"
    using runs_by_nonempty [of "c # cs"]
    by (cases "runs_by (\<lambda>a b. spec_continues P (td_days (b - a))) (c # cs)") auto
  show ?case
  proof (cases "spec_continues P (td_days (c - prev))")
    case True
    have "run_lengths_from P s prev (c # cs) = run_lengths_from P (s + 1) c cs"
      using True by simp
    also have "\<dots> = hd_add s (spec_run_lengths P (c # cs))"
      using Cons.IH [of "s + 1" c] by simp
    also have "\<dots> = hd_add (s - 1) (spec_run_lengths P (prev # c # cs))"
      using True rr by (simp add: spec_run_lengths_def spec_runs_def)
    finally show ?thesis .
  next
    case False
    have "run_lengths_from P s prev (c # cs) = s # run_lengths_from P 1 c cs"
      using False by simp
    also have "\<dots> = s # spec_run_lengths P (c # cs)"
      using Cons.IH [of 1 c] rr by (simp add: spec_run_lengths_def spec_runs_def)
    also have "\<dots> = hd_add (s - 1) (spec_run_lengths P (prev # c # cs))"
      using False by (simp add: spec_run_lengths_def spec_runs_def)
    finally show ?thesis .
  qed
qed

lemma run_lengths_from_ge: "n \<in> set (run_lengths_from P s prev rest) \<Longrightarrow> 1 \<le> s \<Longrightarrow> 1 \<le> n"
  by (induction rest arbitrary: s prev) (auto split: if_splits)

lemma Max_run_lengths_from_ge: "s \<le> Max (set (run_lengths_from P s prev rest))"
proof (induction rest arbitrary: s prev)
  case Nil
  then show ?case by simp
next
  case (Cons c cs)
  show ?case
  proof (cases "spec_continues P (td_days (c - prev))")
    case True
    have "s + 1 \<le> Max (set (run_lengths_from P (s + 1) c cs))" by (rule Cons.IH)
    then show ?thesis using True by simp
  next
    case False
    then show ?thesis by (simp add: run_lengths_from_ne)
  qed
qed

lemma foldl_streak_max:
  "1 \<le> s \<Longrightarrow> s \<le> m \<Longrightarrow>
   snd (snd (foldl (streak_reducer P) (prev, s, m) rest))
     = max m (Max (set (run_lengths_from P s prev rest)))"
proof (induction rest arbitrary: prev s m)
  case Nil
  then show ?case by simp
next
  case (Cons c cs)
  show ?case
  proof (cases "spec_continues P (td_days (c - prev))")
    case True
    have "snd (snd (foldl (streak_reducer P) (prev, s, m) (c # cs)))
            = snd (snd (foldl (streak_reducer P) (c, s + 1, max m (s + 1)) cs))"
      using True by (simp only: foldl_Cons streak_reducer_step if_True)
    also have "\<dots> = max (max m (s + 1)) (Max (set (run_lengths_from P (s + 1) c cs)))"
      using Cons.prems by (intro Cons.IH) simp_all
    also have "\<dots> = max m (Max (set (run_lengths_from P (s + 1) c cs)))"
      using Max_run_lengths_from_ge [of "s + 1" P c cs] by simp
    finally show ?thesis using True by simp
  next
    case False
    have "snd (snd (foldl (streak_reducer P) (prev, s, m) (c # cs)))
            = snd (snd (foldl (streak_reducer P) (c, 1, max m s) cs))"
      using False by (simp only: foldl_Cons streak_reducer_step if_False)
    also have "\<dots> = max (max m s) (Max (set (run_lengths_from P 1 c cs)))"
      using Cons.prems by (intro Cons.IH) simp_all
    also have "\<dots> = max m (Max (set (s # run_lengths_from P 1 c cs)))"
      using Cons.prems by (simp add: run_lengths_from_ne max.assoc)
    finally show ?thesis using False by simp
  qed
qed

lemma streak_of_dates_runs:
  assumes "dates \<noteq> []"
  shows "streak_of_dates P dates = Inr (Max (set (spec_run_lengths P dates)))"
proof -
  obtain d0 rest where dr: "dates = d0 # rest" using assms by (cases dates) auto
  have eq: "run_lengths_from P 1 d0 rest = spec_run_lengths P dates"
  proof -
    have "spec_run_lengths P dates \<noteq> []"
      using spec_runs_nonempty [OF assms, of P] by (simp add: spec_run_lengths_def)
    then obtain n ns where "spec_run_lengths P dates = n # ns"
      by (cases "spec_run_lengths P dates") auto
    then show ?thesis using run_lengths_from_spec [of P 1 d0 rest] dr by simp
  qed
  have f: "snd (snd (foldl (streak_reducer P) (d0, 1, 1) rest))
             = max 1 (Max (set (spec_run_lengths P dates)))"
    using foldl_streak_max [of 1 1 P d0 rest] eq by simp
  have ge: "1 \<le> Max (set (spec_run_lengths P dates))"
    using Max_run_lengths_from_ge [of 1 P d0 rest] eq by simp
  show ?thesis
  proof (cases rest)
    case Nil
    then show ?thesis using dr by (simp add: streak_of_dates_def spec_run_lengths_def spec_runs_def)
  next
    case (Cons c cs)
    then have "length dates \<noteq> 1" using dr by simp
    moreover obtain x a b where fo: "foldl (streak_reducer P) (d0, 1, 1) rest = (x, a, b)"
      by (cases "foldl (streak_reducer P) (d0, 1, 1) rest") auto
    moreover have "b = Max (set (spec_run_lengths P dates))"
      using f ge fo by simp
    ultimately show ?thesis
      using dr by (simp add: streak_of_dates_def)
  qed
qed

lemma parse_dates_nonempty: "parse_dates parse cs = Some ds \<Longrightarrow> ds \<noteq> [] \<Longrightarrow> cs \<noteq> []"
  by (cases cs) auto

text \<open>
  C2, as stated, fails: two completions whose timestamps both parse, one naive and one
  timezone-aware, cannot be sorted; the error is caught and the function returns 0, which
  is smaller than the length of any run.
\<close>

theorem C2_mixed_awareness_counterexample:
  "parse_dates fixture_iso (db_get_completions (example_db completions_mixed) 1)
     = Some [naive 63829090800000000, aware 63829177200000000 0]
   \<and> py_sorted [naive 63829090800000000, aware 63829177200000000 0] = Inl TypeError
   \<and> get_longest_streak_for_habit fixture_iso (example_db completions_mixed) 1 1 = Inr 0
   \<and> get_longest_streak_for_habit fixture_iso (example_db completions_mixed) 1 1 \<noteq> Inr 1
   \<and> get_longest_streak_for_habit fixture_iso (example_db completions_mixed) 1 1 \<noteq> Inr 2"
  by (simp add: example_db_def completions_mixed_def fixture_iso_def
      get_longest_streak_for_habit_def longest_streak_of_completions_def
      py_sorted_def mixed_awareness_def naive_def aware_def)

text \<open>
  C2, amended. For every periodicity \<open>P \<ge> 1\<close> and every collection whose timestamps
  parse to a non-empty list \<open>ds\<close> of dates that are all naive or all timezone-aware, the
  function returns the largest run length of the sorted dates; the last run takes part in
  that maximum, so the result is at least the length of the last run (and of every other
  run). When \<open>ds\<close> holds both naive and timezone-aware dates, the function returns 0.
\<close>

theorem C2_result_is_longest_run:
  assumes "P \<ge> 1"
    and "parse_dates parse (db_get_completions d hid) = Some ds"
    and "ds \<noteq> []"
  shows "(\<not> mixed_awareness ds \<longrightarrow>
           (\<exists>v. get_longest_streak_for_habit parse d hid P = Inr v
              \<and> v = Max (set (spec_run_lengths P (sort (map instant ds))))
              \<and> last (spec_run_lengths P (sort (map instant ds))) \<le> v
              \<and> (\<forall>n \<in> set (spec_run_lengths P (sort (map instant ds))). n \<le> v)))
       \<and> (mixed_awareness ds \<longrightarrow> get_longest_streak_for_habit parse d hid P = Inr 0)"
proof (intro conjI impI)
  have cne: "db_get_completions d hid \<noteq> []"
    using parse_dates_nonempty [OF assms(2) assms(3)] .
  {
    assume nm: "\<not> mixed_awareness ds"
    let ?dates = "sort (map instant ds)"
    let ?ls = "spec_run_lengths P ?dates"
    have "length ?dates = length ds" by simp
    then have ne: "?dates \<noteq> []" using assms(3) by (metis length_0_conv)
    have r: "get_longest_streak_for_habit parse d hid P = Inr (Max (set ?ls))"
      using cne assms(2) nm streak_of_dates_runs [OF ne, of P]
      by (simp add: get_longest_streak_for_habit_def longest_streak_of_completions_def
          py_sorted_def)
    have lne: "?ls \<noteq> []"
      using spec_runs_nonempty [OF ne, of P] by (simp add: spec_run_lengths_def)
    have all: "\<forall>n \<in> set ?ls. n \<le> Max (set ?ls)" by simp
    have "last ?ls \<in> set ?ls" using lne by simp
    then have "last ?ls \<le> Max (set ?ls)" using all by blast
    with r all
    show "\<exists>v. get_longest_streak_for_habit parse d hid P = Inr v
              \<and> v = Max (set ?ls) \<and> last ?ls \<le> v \<and> (\<forall>n \<in> set ?ls. n \<le> v)"
      by blast
  }
  {
    assume "mixed_awareness ds"
    then show "get_longest_streak_for_habit parse d hid P = Inr 0"
      using cne assms(2)
      by (simp add: get_longest_streak_for_habit_def longest_streak_of_completions_def
          py_sorted_def)
  }
qed

theorem C2_result_is_longest_run_witness:
  "(1::int) \<ge> 1
   \<and> parse_dates fixture_iso (db_get_completions fixture_db 1)
       = Some [naive 63829090800000000, naive 63829177200000000]
   \<and> [naive 63829090800000000, naive 63829177200000000] \<noteq> []
   \<and> \<not> mixed_awareness [naive 63829090800000000, naive 63829177200000000]
   \<and> spec_run_lengths 1 (sort (map instant [naive 63829090800000000, naive 63829177200000000]))
       = [2]
   \<and> get_longest_streak_for_habit fixture_iso fixture_db 1 1 = Inr 2
   \<and> parse_dates fixture_iso (db_get_completions (example_db completions_mixed) 1)
       = Some [naive 63829090800000000, aware 63829177200000000 0]
   \<and> mixed_awareness [naive 63829090800000000, aware 63829177200000000 0]
   \<and> get_longest_streak_for_habit fixture_iso (example_db completions_mixed) 1 1 = Inr 0"
proof -
  have a: "(1::int) \<ge> 1" by simp
  have b: "parse_dates fixture_iso (db_get_completions fixture_db 1)
       = Some [naive 63829090800000000, naive 63829177200000000]"
    by (simp add: fixture_db_def fixture_completions_def fixture_iso_def)
  have c: "[naive 63829090800000000, naive 63829177200000000] \<noteq> []" by simp
  have nm: "\<not> mixed_awareness [naive 63829090800000000, naive 63829177200000000]"
    by (simp add: mixed_awareness_def naive_def)
  have e: "spec_run_lengths 1 (sort (map instant [naive 63829090800000000, naive 63829177200000000]))
       = [2]"
    by (simp add: spec_run_lengths_def spec_runs_def spec_continues_def model_eval)
  from C2_result_is_longest_run [OF a b c] nm
  have r: "get_longest_streak_for_habit fixture_iso fixture_db 1 1 = Inr 2"
    unfolding e by simp
  have b': "parse_dates fixture_iso (db_get_completions (example_db completions_mixed) 1)
       = Some [naive 63829090800000000, aware 63829177200000000 0]"
    by (simp add: example_db_def completions_mixed_def fixture_iso_def)
  have c': "[naive 63829090800000000, aware 63829177200000000 0] \<noteq> []" by simp
  have m: "mixed_awareness [naive 63829090800000000, aware 63829177200000000 0]"
    by (simp add: mixed_awareness_def naive_def aware_def)
  from C2_result_is_longest_run [OF a b' c'] m
  have z: "get_longest_streak_for_habit fixture_iso (example_db completions_mixed) 1 1 = Inr 0"
    by blast
  from a b c nm e r b' m z show ?thesis by blast
qed

section \<open>The batch view computes the same streaks\<close>

declare streak_loop.simps [simp del]

lemma spec_continues_iff: "spec_continues P diff \<longleftrightarrow> 1 \<le> diff \<and> diff \<le> P"
  by (auto simp: spec_continues_def)

lemma streak_loop_foldl:
  "1 \<le> i \<Longrightarrow> i \<le> length dates \<Longrightarrow> 1 \<le> c \<Longrightarrow>
   (case streak_loop P dates i m c of (m', c') \<Rightarrow> max m' c')
     = snd (snd (foldl (streak_reducer P) (dates ! (i - 1), c, max m c) (drop i dates)))"
proof (induction P dates i m c rule: streak_loop.induct)
  case (1 P dates i m c)
  show ?case
  proof (cases "i < length dates")
    case False
    then have "drop i dates = []" using "1.prems" by simp
    moreover have "streak_loop P dates i m c = (m, c)"
      using False by (subst streak_loop.simps) simp
    ultimately show ?thesis by simp
  next
    case True
    let ?diff = "td_days (dates ! i - dates ! (i - 1))"
    have dr: "drop i dates = dates ! i # drop (i + 1) dates"
      using True by (simp add: Cons_nth_drop_Suc)
    show ?thesis
    proof (cases "1 \<le> ?diff \<and> ?diff \<le> P")
      case ext: True
      have "streak_loop P dates i m c = streak_loop P dates (i + 1) m (c + 1)"
        using True ext by (subst streak_loop.simps) (simp add: Let_def)
      moreover have "(case streak_loop P dates (i + 1) m (c + 1) of (m', c') \<Rightarrow> max m' c')
          = snd (snd (foldl (streak_reducer P) (dates ! i, c + 1, max m (c + 1)) (drop (i + 1) dates)))"
        using "1.IH"(1) [OF True refl] ext True "1.prems" by simp
      moreover have "streak_reducer P (dates ! (i - 1), c, max m c) (dates ! i)
          = (dates ! i, c + 1, max m (c + 1))"
        using ext unfolding streak_reducer_step spec_continues_iff by auto
      ultimately show ?thesis using dr by simp
    next
      case brk: False
      have "streak_loop P dates i m c = streak_loop P dates (i + 1) (max m c) 1"
        using True brk by (subst streak_loop.simps) (auto simp: Let_def)
      moreover have "(case streak_loop P dates (i + 1) (max m c) 1 of (m', c') \<Rightarrow> max m' c')
          = snd (snd (foldl (streak_reducer P) (dates ! i, 1, max (max m c) 1) (drop (i + 1) dates)))"
        using "1.IH"(2) [OF True refl] brk True "1.prems" by simp
      moreover have "max (max m c) 1 = max m c" using "1.prems"(3) by simp
      moreover have "streak_reducer P (dates ! (i - 1), c, max m c) (dates ! i)
          = (dates ! i, 1, max m c)"
        using brk unfolding streak_reducer_step spec_continues_iff by auto
      ultimately show ?thesis using dr by simp
    qed
  qed
qed

lemma parse_all_parse_dates:
  "parse_all parse cs = Inr ds \<Longrightarrow> parse_dates parse cs = Some ds \<and> length ds = length cs"
  by (induction cs arbitrary: ds) (auto split: option.splits sum.splits)

lemma streak_of_dates_foldl:
  "streak_of_dates P (d0 # rest) = Inr (snd (snd (foldl (streak_reducer P) (d0, 1, 1) rest)))"
  by (cases rest) (simp_all add: streak_of_dates_def split: prod.splits)

lemma calculate_streak_engine:
  assumes "calculate_streak parse d h = Inr v"
  shows "get_longest_streak_for_habit parse d (id_habit h) (periodicity h) = Inr v"
proof (cases "db_get_completions d (id_habit h) = []")
  case True
  then show ?thesis
    using assms
    by (simp add: calculate_streak_def get_longest_streak_for_habit_def
        longest_streak_of_completions_def)
next
  case False
  then obtain ds where pa: "parse_all parse (db_get_completions d (id_habit h)) = Inr ds"
    using assms by (auto simp: calculate_streak_def split: sum.splits)
  have pd: "parse_dates parse (db_get_completions d (id_habit h)) = Some ds"
    and len: "length ds = length (db_get_completions d (id_habit h))"
    using parse_all_parse_dates [OF pa] by simp_all
  obtain dates where ps: "py_sorted ds = Inr dates"
    using assms False pa by (auto simp: calculate_streak_def split: sum.splits)
  have "length dates = length ds" using py_sorted_Inr [OF ps] by simp
  then have "dates \<noteq> []" using len False by (metis length_0_conv)
  then obtain d0 rest where sd: "dates = d0 # rest" by (cases dates) auto
  have v: "v = (case streak_loop (periodicity h) dates 1 1 1 of (m', c') \<Rightarrow> max m' c')"
    using assms False pa ps by (simp add: calculate_streak_def split: prod.splits)
  have "(case streak_loop (periodicity h) dates 1 1 1 of (m', c') \<Rightarrow> max m' c')
      = snd (snd (foldl (streak_reducer (periodicity h)) (dates ! (1 - 1), 1, max 1 1) (drop 1 dates)))"
    by (rule streak_loop_foldl) (simp_all add: sd)
  also have "\<dots> = snd (snd (foldl (streak_reducer (periodicity h)) (d0, 1, 1) rest))"
    by (simp add: sd)
  finally have "streak_of_dates (periodicity h) dates = Inr v"
    using v by (simp add: sd streak_of_dates_foldl)
  then show ?thesis
    using False pd ps
    by (simp add: get_longest_streak_for_habit_def longest_streak_of_completions_def)
qed

lemma map_result_Inr:
  "map_result f xs = Inr ys \<Longrightarrow>
     length ys = length xs \<and> (\<forall>i < length xs. f (xs ! i) = Inr (ys ! i))"
proof (induction xs arbitrary: ys)
  case Nil
  then show ?case by simp
next
  case (Cons x xs)
  then obtain y ys' where fx: "f x = Inr y" and rest: "map_result f xs = Inr ys'"
    and ys: "ys = y # ys'"
    by (auto split: sum.splits)
  have ih: "length ys' = length xs \<and> (\<forall>i < length xs. f (xs ! i) = Inr (ys' ! i))"
    using Cons.IH [OF rest] .
  show ?case
  proof (intro conjI allI impI)
    show "length ys = length (x # xs)" using ih ys by simp
  next
    fix i assume "i < length (x # xs)"
    then show "f ((x # xs) ! i) = Inr (ys ! i)"
      using ih ys fx by (cases i) simp_all
  qed
qed

text \<open>
  C3. Whenever \<open>get_all_streaks\<close> returns, its list has one entry per owned habit, in
  order, and the entry of each habit pairs the habit's name with exactly the value that
  \<open>get_longest_streak_for_habit\<close> returns for that habit and its periodicity (which
  therefore is defined as well).
\<close>

theorem C3_all_streaks_agree:
  assumes "get_all_streaks parse d uid = Inr rs"
    and "i < length (db_get_all_habits d uid)"
  shows "length rs = length (db_get_all_habits d uid)
       \<and> (\<exists>v. rs ! i = (name (db_get_all_habits d uid ! i), v)
              \<and> get_longest_streak_for_habit parse d
                    (id_habit (db_get_all_habits d uid ! i))
                    (periodicity (db_get_all_habits d uid ! i)) = Inr v)"
proof -
  let ?hs = "db_get_all_habits d uid"
  let ?f = "\<lambda>h. case calculate_streak parse d h of
                    Inl e \<Rightarrow> Inl e
                  | Inr v \<Rightarrow> Inr (name h, v)"
  have ne: "?hs \<noteq> []" using assms(2) by auto
  then have "map_result ?f ?hs = Inr rs"
    using assms(1) by (simp add: get_all_streaks_def)
  from map_result_Inr [OF this]
  have len: "length rs = length ?hs" and fi: "?f (?hs ! i) = Inr (rs ! i)"
    using assms(2) by simp_all
  from fi obtain v where cv: "calculate_streak parse d (?hs ! i) = Inr v"
    and ri: "rs ! i = (name (?hs ! i), v)"
    by (auto split: sum.splits)
  from calculate_streak_engine [OF cv] ri len show ?thesis by blast
qed

theorem C3_all_streaks_agree_witness:
  "get_all_streaks fixture_iso fixture_db 1
     = Inr [(''Exercise'', 2), (''Reading'', 1), (''Meditation'', 1)]
   \<and> (0::nat) < length (db_get_all_habits fixture_db 1)
   \<and> get_longest_streak_for_habit fixture_iso fixture_db 1 1 = Inr 2"
proof -
  have hs: "db_get_all_habits fixture_db 1 = fixture_habits"
    by (simp add: fixture_db_def fixture_habits_def)
  have a: "get_all_streaks fixture_iso fixture_db 1
     = Inr [(''Exercise'', 2), (''Reading'', 1), (''Meditation'', 1)]"
    by (simp add: get_all_streaks_def calculate_streak_def fixture_db_def fixture_habits_def
        fixture_completions_def fixture_iso_def streak_loop.simps model_eval)
  have b: "(0::nat) < length (db_get_all_habits fixture_db 1)"
    by (simp add: hs fixture_habits_def)
  from C3_all_streaks_agree [OF a b]
  have "get_longest_streak_for_habit fixture_iso fixture_db 1 1 = Inr 2"
    by (simp add: hs fixture_habits_def)
  with a b show ?thesis by blast
qed

section \<open>Longest streak across all habits\<close>

lemma foldl_max_first:
  fixes key :: "'a \<Rightarrow> int"
  shows "\<exists>i < length (x # xs).
           foldl (\<lambda>best y. if key y > key best then y else best) x xs = (x # xs) ! i
         \<and> (\<forall>j < length (x # xs). key ((x # xs) ! j) \<le> key ((x # xs) ! i))
         \<and> (\<forall>j < i. key ((x # xs) ! j) < key ((x # xs) ! i))"
proof (induction xs rule: rev_induct)
  case Nil
  then show ?case by simp
next
  case (snoc y ys)
  let ?step = "\<lambda>best y. if key y > key best then y else best"
  let ?zs = "x # ys"
  from snoc obtain i where i: "i < length ?zs"
    and best: "foldl ?step x ys = ?zs ! i"
    and mx: "\<forall>j < length ?zs. key (?zs ! j) \<le> key (?zs ! i)"
    and fst: "\<forall>j < i. key (?zs ! j) < key (?zs ! i)"
    by blast
  have app: "x # (ys @ [y]) = ?zs @ [y]" by simp
  have nth_old: "\<And>j. j < length ?zs \<Longrightarrow> (?zs @ [y]) ! j = ?zs ! j"
    by (simp add: nth_append del: append_Cons)
  have nth_new: "(?zs @ [y]) ! length ?zs = y"
    by (simp add: nth_append del: append_Cons)
  have len: "length (?zs @ [y]) = Suc (length ?zs)" by simp
  show ?case
  proof (cases "key y > key (?zs ! i)")
    case True
    have r: "foldl ?step x (ys @ [y]) = y" using best True by simp
    have "length ?zs < length (?zs @ [y])" by simp
    moreover have "foldl ?step x (ys @ [y]) = (?zs @ [y]) ! length ?zs"
      using r nth_new by simp
    moreover have "\<forall>j < length (?zs @ [y]). key ((?zs @ [y]) ! j) \<le> key ((?zs @ [y]) ! length ?zs)"
    proof (intro allI impI)
      fix j assume "j < length (?zs @ [y])"
      then have "j < length ?zs \<or> j = length ?zs" by auto
      then show "key ((?zs @ [y]) ! j) \<le> key ((?zs @ [y]) ! length ?zs)"
      proof
        assume jl: "j < length ?zs"
        then have "key (?zs ! j) \<le> key (?zs ! i)" using mx by blast
        then show ?thesis using True nth_old [OF jl] nth_new by simp
      next
        assume "j = length ?zs"
        then show ?thesis by simp
      qed
    qed
    moreover have "\<forall>j < length ?zs. key ((?zs @ [y]) ! j) < key ((?zs @ [y]) ! length ?zs)"
    proof (intro allI impI)
      fix j assume jl: "j < length ?zs"
      then have "key (?zs ! j) \<le> key (?zs ! i)" using mx by blast
      then show "key ((?zs @ [y]) ! j) < key ((?zs @ [y]) ! length ?zs)"
        using True nth_old [OF jl] nth_new by simp
    qed
    ultimately show ?thesis unfolding app by blast
  next
    case False
    have r: "foldl ?step x (ys @ [y]) = ?zs ! i" using best False by simp
    have "i < length (?zs @ [y])" using i by simp
    moreover have "foldl ?step x (ys @ [y]) = (?zs @ [y]) ! i"
      using r nth_old [OF i] by simp
    moreover have "\<forall>j < length (?zs @ [y]). key ((?zs @ [y]) ! j) \<le> key ((?zs @ [y]) ! i)"
    proof (intro allI impI)
      fix j assume "j < length (?zs @ [y])"
      then have "j < length ?zs \<or> j = length ?zs" by auto
      then show "key ((?zs @ [y]) ! j) \<le> key ((?zs @ [y]) ! i)"
      proof
        assume jl: "j < length ?zs"
        then show ?thesis using mx nth_old [OF jl] nth_old [OF i] by simp
      next
        assume "j = length ?zs"
        then show ?thesis using False nth_new nth_old [OF i] by simp
      qed
    qed
    moreover have "\<forall>j < i. key ((?zs @ [y]) ! j) < key ((?zs @ [y]) ! i)"
    proof (intro allI impI)
      fix j assume ji: "j < i"
      then have jl: "j < length ?zs" using i by simp
      show "key ((?zs @ [y]) ! j) < key ((?zs @ [y]) ! i)"
        using fst ji nth_old [OF jl] nth_old [OF i] by simp
    qed
    ultimately show ?thesis unfolding app by blast
  qed
qed

lemma py_max_key_first:
  assumes "xs \<noteq> []"
  shows "\<exists>i < length xs. py_max_key key xs dflt = xs ! i
         \<and> (\<forall>j < length xs. key (xs ! j) \<le> key (xs ! i))
         \<and> (\<forall>j < i. key (xs ! j) < key (xs ! i))"
proof -
  obtain x ys where xs: "xs = x # ys" using assms by (cases xs) auto
  show ?thesis unfolding xs py_max_key.simps by (rule foldl_max_first)
qed

lemma map_result_defined:
  "(\<forall>x \<in> set xs. \<exists>y. f x = Inr y) \<Longrightarrow> \<exists>ys. map_result f xs = Inr ys"
proof (induction xs)
  case Nil
  then show ?case by simp
next
  case (Cons x xs)
  then obtain y where "f x = Inr y" by auto
  moreover obtain ys where "map_result f xs = Inr ys" using Cons by auto
  ultimately show ?case by simp
qed

lemma get_longest_streak_char:
  assumes ne: "db_get_all_habits d uid \<noteq> []"
    and res: "get_longest_streak parse d uid = Inr r"
  shows "\<exists>i < length (db_get_all_habits d uid). \<exists>v.
           r = (Some (db_get_all_habits d uid ! i), v)
         \<and> get_longest_streak_for_habit parse d (id_habit (db_get_all_habits d uid ! i))
               (periodicity (db_get_all_habits d uid ! i)) = Inr v
         \<and> (\<forall>j < length (db_get_all_habits d uid). \<forall>w.
               get_longest_streak_for_habit parse d (id_habit (db_get_all_habits d uid ! j))
                 (periodicity (db_get_all_habits d uid ! j)) = Inr w \<longrightarrow> w \<le> v)
         \<and> (\<forall>j < i. \<forall>w.
               get_longest_streak_for_habit parse d (id_habit (db_get_all_habits d uid ! j))
                 (periodicity (db_get_all_habits d uid ! j)) = Inr w \<longrightarrow> w < v)"
proof -
  let ?hs = "db_get_all_habits d uid"
  let ?eng = "\<lambda>h. get_longest_streak_for_habit parse d (id_habit h) (periodicity h)"
  let ?g = "\<lambda>habit. case ?eng habit of Inl e \<Rightarrow> Inl e | Inr v \<Rightarrow> Inr (Some habit, v)"
  obtain streaks where ms: "map_result ?g ?hs = Inr streaks"
    and r: "r = py_max_key snd streaks (None, 0)"
    using ne res by (auto simp: get_longest_streak_def split: sum.splits)
  from map_result_Inr [OF ms]
  have len: "length streaks = length ?hs"
    and gi: "\<forall>i < length ?hs. ?g (?hs ! i) = Inr (streaks ! i)"
    by simp_all
  have entry: "\<And>j. j < length ?hs \<Longrightarrow>
       streaks ! j = (Some (?hs ! j), snd (streaks ! j)) \<and> ?eng (?hs ! j) = Inr (snd (streaks ! j))"
  proof -
    fix j assume "j < length ?hs"
    then have "?g (?hs ! j) = Inr (streaks ! j)" using gi by blast
    then obtain x where e: "?eng (?hs ! j) = Inr x" and sj: "streaks ! j = (Some (?hs ! j), x)"
      by (auto split: sum.splits)
    have "snd (streaks ! j) = x" using sj by simp
    then show "streaks ! j = (Some (?hs ! j), snd (streaks ! j))
        \<and> ?eng (?hs ! j) = Inr (snd (streaks ! j))"
      using e sj by simp
  qed
  have sne: "streaks \<noteq> []" using ne len by auto
  from py_max_key_first [OF sne, of snd "(None, 0)"]
  obtain i where i: "i < length streaks"
    and best: "py_max_key snd streaks (None, 0) = streaks ! i"
    and mx: "\<forall>j < length streaks. snd (streaks ! j) \<le> snd (streaks ! i)"
    and first: "\<forall>j < i. snd (streaks ! j) < snd (streaks ! i)"
    by blast
  have il: "i < length ?hs" using i len by simp
  have "r = (Some (?hs ! i), snd (streaks ! i))"
    using r best entry [OF il] by simp
  moreover have "?eng (?hs ! i) = Inr (snd (streaks ! i))" using entry [OF il] by simp
  moreover have "\<forall>j < length ?hs. \<forall>w. ?eng (?hs ! j) = Inr w \<longrightarrow> w \<le> snd (streaks ! i)"
  proof (intro allI impI)
    fix j w assume jl: "j < length ?hs" and w: "?eng (?hs ! j) = Inr w"
    have "w = snd (streaks ! j)" using entry [OF jl] w by simp
    then show "w \<le> snd (streaks ! i)" using mx jl len by simp
  qed
  moreover have "\<forall>j < i. \<forall>w. ?eng (?hs ! j) = Inr w \<longrightarrow> w < snd (streaks ! i)"
  proof (intro allI impI)
    fix j w assume ji: "j < i" and w: "?eng (?hs ! j) = Inr w"
    have jl: "j < length ?hs" using ji il by simp
    have "w = snd (streaks ! j)" using entry [OF jl] w by simp
    then show "w < snd (streaks ! i)" using first ji by simp
  qed
  ultimately show ?thesis using il by blast
qed

lemma get_longest_streak_defined:
  assumes "\<forall>h \<in> set (db_get_all_habits d uid).
             \<exists>v. get_longest_streak_for_habit parse d (id_habit h) (periodicity h) = Inr v"
  shows "\<exists>r. get_longest_streak parse d uid = Inr r"
proof -
  let ?g = "\<lambda>habit. case get_longest_streak_for_habit parse d (id_habit habit) (periodicity habit) of
                      Inl e \<Rightarrow> Inl e | Inr v \<Rightarrow> Inr (Some habit, v)"
  have "\<forall>h \<in> set (db_get_all_habits d uid). \<exists>y. ?g h = Inr y"
    using assms by (auto split: sum.splits)
  from map_result_defined [OF this]
  obtain ys where "map_result ?g (db_get_all_habits d uid) = Inr ys" by blast
  then show ?thesis by (cases "db_get_all_habits d uid = []") (simp_all add: get_longest_streak_def)
qed

text \<open>
  C6. For a user with no habits the function returns \<open>(None, 0)\<close>. For a user with at
  least one habit (each habit's streak computation returning a value) it returns a pair
  \<open>(habit, streak)\<close> where \<open>streak\<close> is that habit's value of
  \<open>get_longest_streak_for_habit\<close>, no owned habit has a larger value, and every habit
  earlier in the retrieved list has a strictly smaller one (the first maximum wins).
\<close>

theorem C6_longest_streak:
  "(db_get_all_habits d uid = [] \<longrightarrow> get_longest_streak parse d uid = Inr (None, 0))
   \<and> (db_get_all_habits d uid \<noteq> []
        \<and> (\<forall>h \<in> set (db_get_all_habits d uid).
              \<exists>v. get_longest_streak_for_habit parse d (id_habit h) (periodicity h) = Inr v)
      \<longrightarrow> (\<exists>i < length (db_get_all_habits d uid). \<exists>v.
             get_longest_streak parse d uid = Inr (Some (db_get_all_habits d uid ! i), v)
           \<and> get_longest_streak_for_habit parse d (id_habit (db_get_all_habits d uid ! i))
                 (periodicity (db_get_all_habits d uid ! i)) = Inr v
           \<and> (\<forall>j < length (db_get_all_habits d uid). \<forall>w.
                 get_longest_streak_for_habit parse d (id_habit (db_get_all_habits d uid ! j))
                   (periodicity (db_get_all_habits d uid ! j)) = Inr w \<longrightarrow> w \<le> v)
           \<and> (\<forall>j < i. \<forall>w.
                 get_longest_streak_for_habit parse d (id_habit (db_get_all_habits d uid ! j))
                   (periodicity (db_get_all_habits d uid ! j)) = Inr w \<longrightarrow> w < v)))"
proof (intro conjI impI)
  assume "db_get_all_habits d uid = []"
  then show "get_longest_streak parse d uid = Inr (None, 0)"
    by (simp add: get_longest_streak_def)
next
  assume h: "db_get_all_habits d uid \<noteq> []
        \<and> (\<forall>h \<in> set (db_get_all_habits d uid).
              \<exists>v. get_longest_streak_for_habit parse d (id_habit h) (periodicity h) = Inr v)"
  then obtain r where r: "get_longest_streak parse d uid = Inr r"
    using get_longest_streak_defined [of d uid parse] by blast
  from get_longest_streak_char [OF _ r] h r
  show "\<exists>i < length (db_get_all_habits d uid). \<exists>v.
             get_longest_streak parse d uid = Inr (Some (db_get_all_habits d uid ! i), v)
           \<and> get_longest_streak_for_habit parse d (id_habit (db_get_all_habits d uid ! i))
                 (periodicity (db_get_all_habits d uid ! i)) = Inr v
           \<and> (\<forall>j < length (db_get_all_habits d uid). \<forall>w.
                 get_longest_streak_for_habit parse d (id_habit (db_get_all_habits d uid ! j))
                   (periodicity (db_get_all_habits d uid ! j)) = Inr w \<longrightarrow> w \<le> v)
           \<and> (\<forall>j < i. \<forall>w.
                 get_longest_streak_for_habit parse d (id_habit (db_get_all_habits d uid ! j))
                   (periodicity (db_get_all_habits d uid ! j)) = Inr w \<longrightarrow> w < v)"
    by force
qed

theorem C6_longest_streak_witness:
  "db_get_all_habits fixture_db 2 = []
   \<and> get_longest_streak fixture_iso fixture_db 2 = Inr (None, 0)
   \<and> db_get_all_habits fixture_db 1 \<noteq> []
   \<and> db_get_all_habits fixture_db 1 = fixture_habits
   \<and> map (\<lambda>h. get_longest_streak_for_habit fixture_iso fixture_db (id_habit h) (periodicity h))
         fixture_habits = [Inr 2, Inr 1, Inr 1]
   \<and> (\<exists>i < length (db_get_all_habits fixture_db 1). \<exists>v.
         get_longest_streak fixture_iso fixture_db 1 = Inr (Some (db_get_all_habits fixture_db 1 ! i), v)
       \<and> get_longest_streak_for_habit fixture_iso fixture_db
             (id_habit (db_get_all_habits fixture_db 1 ! i))
             (periodicity (db_get_all_habits fixture_db 1 ! i)) = Inr v)
   \<and> get_longest_streak fixture_iso fixture_db 1 = Inr (Some (fixture_habits ! 0), 2)"
proof -
  have a: "db_get_all_habits fixture_db 2 = []"
    by (simp add: fixture_db_def fixture_habits_def)
  have b: "db_get_all_habits fixture_db 1 \<noteq> []"
    by (simp add: fixture_db_def fixture_habits_def)
  have c: "\<forall>h \<in> set (db_get_all_habits fixture_db 1).
         \<exists>v. get_longest_streak_for_habit fixture_iso fixture_db (id_habit h) (periodicity h) = Inr v"
    by (simp add: fixture_db_def fixture_habits_def fixture_completions_def fixture_iso_def
        get_longest_streak_for_habit_def longest_streak_of_completions_def streak_of_dates_def
        model_eval)
  have r0: "get_longest_streak fixture_iso fixture_db 2 = Inr (None, 0)"
    using C6_longest_streak [of fixture_db 2 fixture_iso] a by blast
  have r1: "\<exists>i < length (db_get_all_habits fixture_db 1). \<exists>v.
         get_longest_streak fixture_iso fixture_db 1 = Inr (Some (db_get_all_habits fixture_db 1 ! i), v)
       \<and> get_longest_streak_for_habit fixture_iso fixture_db
             (id_habit (db_get_all_habits fixture_db 1 ! i))
             (periodicity (db_get_all_habits fixture_db 1 ! i)) = Inr v"
    using C6_longest_streak [of fixture_db 1 fixture_iso] b c by blast
  have e: "get_longest_streak fixture_iso fixture_db 1 = Inr (Some (fixture_habits ! 0), 2)"
    by (simp add: get_longest_streak_def fixture_db_def fixture_habits_def
        fixture_completions_def fixture_iso_def
        get_longest_streak_for_habit_def longest_streak_of_completions_def streak_of_dates_def
        model_eval)
  have hs: "db_get_all_habits fixture_db 1 = fixture_habits"
    by (simp add: fixture_db_def fixture_habits_def)
  have vs: "map (\<lambda>h. get_longest_streak_for_habit fixture_iso fixture_db (id_habit h) (periodicity h))
         fixture_habits = [Inr 2, Inr 1, Inr 1]"
    by (simp add: fixture_db_def fixture_habits_def fixture_completions_def fixture_iso_def
        get_longest_streak_for_habit_def longest_streak_of_completions_def streak_of_dates_def
        model_eval)
  from a b hs vs r0 r1 e show ?thesis by blast
qed

text \<open>
  C9. If the user owns at least one habit and no owned habit has any completion, the
  function returns the first habit of the retrieved list paired with 0, an actual habit
  record; and a result whose first component is \<open>None\<close> occurs only when the user owns no
  habit.
\<close>

theorem C9_no_completions_first_habit:
  "(db_get_all_habits d uid \<noteq> []
      \<and> (\<forall>h \<in> set (db_get_all_habits d uid). db_get_completions d (id_habit h) = [])
    \<longrightarrow> get_longest_streak parse d uid = Inr (Some (hd (db_get_all_habits d uid)), 0))
   \<and> (get_longest_streak parse d uid = Inr (None, v) \<longrightarrow> db_get_all_habits d uid = [])"
proof (intro conjI impI)
  let ?hs = "db_get_all_habits d uid"
  let ?eng = "\<lambda>h. get_longest_streak_for_habit parse d (id_habit h) (periodicity h)"
  assume h: "?hs \<noteq> [] \<and> (\<forall>h \<in> set ?hs. db_get_completions d (id_habit h) = [])"
  have zero: "\<forall>h \<in> set ?hs. ?eng h = Inr 0"
    using h by (simp add: get_longest_streak_for_habit_def longest_streak_of_completions_def)
  then have "\<forall>h \<in> set ?hs. \<exists>v. ?eng h = Inr v" by blast
  from get_longest_streak_defined [OF this]
  obtain r where r: "get_longest_streak parse d uid = Inr r" by blast
  from get_longest_streak_char [OF _ r] h
  obtain i w where i: "i < length ?hs" and rv: "r = (Some (?hs ! i), w)"
    and ev: "?eng (?hs ! i) = Inr w"
    and first: "\<forall>j < i. \<forall>u. ?eng (?hs ! j) = Inr u \<longrightarrow> u < w"
    by blast
  have "?eng (?hs ! i) = Inr 0" using zero i by simp
  then have w0: "w = 0" using ev by simp
  have "i = 0"
  proof (rule ccontr)
    assume "i \<noteq> 0"
    then have "0 < i" by simp
    moreover have "?eng (?hs ! 0) = Inr 0" using zero h by simp
    ultimately have "(0::int) < w" using first by blast
    then show False using w0 by simp
  qed
  then have "?hs ! i = hd ?hs" using h by (simp add: hd_conv_nth)
  then show "get_longest_streak parse d uid = Inr (Some (hd ?hs), 0)"
    using r rv w0 by simp
next
  assume n: "get_longest_streak parse d uid = Inr (None, v)"
  show "db_get_all_habits d uid = []"
  proof (rule ccontr)
    assume ne: "db_get_all_habits d uid \<noteq> []"
    from get_longest_streak_char [OF ne n] show False by auto
  qed
qed

theorem C9_no_completions_first_habit_witness:
  "db_get_all_habits (fixture_db\<lparr>db_get_completions := \<lambda>i. []\<rparr>) 1 \<noteq> []
   \<and> map (\<lambda>h. db_get_completions (fixture_db\<lparr>db_get_completions := \<lambda>i. []\<rparr>) (id_habit h))
         (db_get_all_habits (fixture_db\<lparr>db_get_completions := \<lambda>i. []\<rparr>) 1) = [[], [], []]
   \<and> get_longest_streak fixture_iso (fixture_db\<lparr>db_get_completions := \<lambda>i. []\<rparr>) 1
       = Inr (Some (fixture_habits ! 0), 0)
   \<and> get_longest_streak fixture_iso fixture_db 2 = Inr (None, 0)
   \<and> db_get_all_habits fixture_db 2 = []"
proof -
  let ?d = "fixture_db\<lparr>db_get_completions := \<lambda>i. []\<rparr>"
  have hs: "db_get_all_habits ?d 1 = fixture_habits"
    by (simp add: fixture_db_def fixture_habits_def)
  have a: "db_get_all_habits ?d 1 \<noteq> []"
    by (simp add: fixture_db_def fixture_habits_def)
  have b: "\<forall>h \<in> set (db_get_all_habits ?d 1). db_get_completions ?d (id_habit h) = []"
    by simp
  have r: "get_longest_streak fixture_iso ?d 1 = Inr (Some (hd (db_get_all_habits ?d 1)), 0)"
    using C9_no_completions_first_habit [of ?d 1 fixture_iso] a b by blast
  have r': "get_longest_streak fixture_iso ?d 1 = Inr (Some (fixture_habits ! 0), 0)"
    using r unfolding hs by (simp add: fixture_habits_def)
  have n: "get_longest_streak fixture_iso fixture_db 2 = Inr (None, 0)"
    by (simp add: get_longest_streak_def fixture_db_def fixture_habits_def)
  have e: "db_get_all_habits fixture_db 2 = []"
    using C9_no_completions_first_habit [of fixture_db 2 fixture_iso 0] n by blast
  have b': "map (\<lambda>h. db_get_completions ?d (id_habit h)) (db_get_all_habits ?d 1) = [[], [], []]"
    by (simp add: fixture_db_def fixture_habits_def)
  from a b' r' n e show ?thesis by blast
qed

section \<open>Habits due today\<close>

lemma filter_result_Inr:
  "filter_result f xs = Inr ys \<Longrightarrow> ys = filter (\<lambda>x. f x = Inr True) xs"
proof (induction xs arbitrary: ys)
  case Nil
  then show ?case by simp
next
  case (Cons x xs)
  then obtain b ys' where fx: "f x = Inr b" and rest: "filter_result f xs = Inr ys'"
    and ys: "ys = (if b then x # ys' else ys')"
    by (auto split: sum.splits)
  have "ys' = filter (\<lambda>x. f x = Inr True) xs" using Cons.IH [OF rest] .
  then show ?case using fx ys by simp
qed

text \<open>
  C7. The predicate \<open>is_due_today\<close> is true when the habit has no last completion, and
  otherwise (the stored timestamp being a valid one) it is true exactly when the number of
  days from the date of the most recent completion to today is at least the periodicity;
  so a habit of periodicity 1 last completed 3 days ago is due and one of periodicity 7
  is not. The list returned by \<open>get_habits_to_complete_today\<close> consists of exactly the
  habits for which the predicate is true, in retrieval order.
\<close>

theorem C7_due_today:
  "(db_get_last_completion d (id_habit habit) = None
      \<longrightarrow> is_due_today parse d today habit = Inr True)
   \<and> (db_get_last_completion d (id_habit habit) = Some c
        \<and> completed_date c = Some s \<and> parse s = Some dt
      \<longrightarrow> is_due_today parse d today habit = Inr (today - date_of dt \<ge> periodicity habit)
        \<and> (today - date_of dt = 3 \<and> periodicity habit = 1
             \<longrightarrow> is_due_today parse d today habit = Inr True)
        \<and> (today - date_of dt = 3 \<and> periodicity habit = 7
             \<longrightarrow> is_due_today parse d today habit = Inr False))
   \<and> (get_habits_to_complete_today parse d now uid = Inr due
      \<longrightarrow> due = filter (\<lambda>h. is_due_today parse d (date_of now) h = Inr True)
                   (db_get_all_habits d uid))"
proof (intro conjI impI)
  assume "db_get_last_completion d (id_habit habit) = None"
  then show "is_due_today parse d today habit = Inr True"
    by (simp add: is_due_today_def)
next
  assume h: "db_get_last_completion d (id_habit habit) = Some c
        \<and> completed_date c = Some s \<and> parse s = Some dt"
  then show g: "is_due_today parse d today habit = Inr (today - date_of dt \<ge> periodicity habit)"
    by (simp add: is_due_today_def)
  {
    assume "today - date_of dt = 3 \<and> periodicity habit = 1"
    then show "is_due_today parse d today habit = Inr True" using g by simp
  }
  {
    assume "today - date_of dt = 3 \<and> periodicity habit = 7"
    then show "is_due_today parse d today habit = Inr False" using g by simp
  }
next
  assume "get_habits_to_complete_today parse d now uid = Inr due"
  then have "filter_result (is_due_today parse d (date_of now)) (db_get_all_habits d uid) = Inr due"
    by (simp add: get_habits_to_complete_today_def)
  then show "due = filter (\<lambda>h. is_due_today parse d (date_of now) h = Inr True)
                   (db_get_all_habits d uid)"
    by (rule filter_result_Inr)
qed

theorem C7_due_today_witness:
  "db_get_last_completion fixture_db 4 = None
   \<and> is_due_today fixture_iso fixture_db 738766 ((fixture_habits ! 0)\<lparr>id_habit := 4\<rparr>) = Inr True
   \<and> db_get_last_completion fixture_db 1 = Some (fixture_completions ! 1)
   \<and> completed_date (fixture_completions ! 1) = Some ''2023-08-31T15:00:00''
   \<and> fixture_iso ''2023-08-31T15:00:00'' = Some (naive 63829177200000000)
   \<and> 738766 - date_of (naive 63829177200000000) = 3
   \<and> periodicity (fixture_habits ! 0) = 1
   \<and> is_due_today fixture_iso fixture_db 738766 (fixture_habits ! 0) = Inr True
   \<and> db_get_last_completion fixture_db 2 = Some (fixture_completions ! 3)
   \<and> completed_date (fixture_completions ! 3) = Some ''2023-08-30T15:00:00''
   \<and> fixture_iso ''2023-08-30T15:00:00'' = Some (naive 63829090800000000)
   \<and> 738765 - date_of (naive 63829090800000000) = 3
   \<and> periodicity (fixture_habits ! 1) = 7
   \<and> is_due_today fixture_iso fixture_db 738765 (fixture_habits ! 1) = Inr False
   \<and> get_habits_to_complete_today fixture_iso fixture_db (naive 63829350000000000) 1
       = Inr [fixture_habits ! 0]"
proof -
  let ?h4 = "(fixture_habits ! 0)\<lparr>id_habit := 4\<rparr>"
  have n: "db_get_last_completion fixture_db (id_habit ?h4) = None"
    by (simp add: fixture_db_def)
  have n': "db_get_last_completion fixture_db 4 = None"
    by (simp add: fixture_db_def)
  have r0: "is_due_today fixture_iso fixture_db 738766 ?h4 = Inr True"
    using C7_due_today [where d = fixture_db and habit = ?h4 and parse = fixture_iso
        and today = 738766] n by blast
  have a1: "db_get_last_completion fixture_db (id_habit (fixture_habits ! 0))
              = Some (fixture_completions ! 1)"
    by (simp add: fixture_db_def fixture_habits_def)
  have a1': "db_get_last_completion fixture_db 1 = Some (fixture_completions ! 1)"
    by (simp add: fixture_db_def)
  have b1: "completed_date (fixture_completions ! 1) = Some ''2023-08-31T15:00:00''"
    by (simp add: fixture_completions_def)
  have c1: "fixture_iso ''2023-08-31T15:00:00'' = Some (naive 63829177200000000)"
    by (simp add: fixture_iso_def)
  have d1: "738766 - date_of (naive 63829177200000000) = 3"
    by (simp add: date_of_def naive_def us_per_day_def)
  have p1: "periodicity (fixture_habits ! 0) = 1"
    by (simp add: fixture_habits_def)
  have r1: "is_due_today fixture_iso fixture_db 738766 (fixture_habits ! 0) = Inr True"
    using C7_due_today [where d = fixture_db and habit = "fixture_habits ! 0"
        and c = "fixture_completions ! 1" and s = "''2023-08-31T15:00:00''"
        and parse = fixture_iso and dt = "naive 63829177200000000" and today = 738766]
      a1 b1 c1 d1 p1 by blast
  have a2: "db_get_last_completion fixture_db (id_habit (fixture_habits ! 1))
              = Some (fixture_completions ! 3)"
    by (simp add: fixture_db_def fixture_habits_def)
  have a2': "db_get_last_completion fixture_db 2 = Some (fixture_completions ! 3)"
    by (simp add: fixture_db_def)
  have b2: "completed_date (fixture_completions ! 3) = Some ''2023-08-30T15:00:00''"
    by (simp add: fixture_completions_def)
  have c2: "fixture_iso ''2023-08-30T15:00:00'' = Some (naive 63829090800000000)"
    by (simp add: fixture_iso_def)
  have d2: "738765 - date_of (naive 63829090800000000) = 3"
    by (simp add: date_of_def naive_def us_per_day_def)
  have p2: "periodicity (fixture_habits ! 1) = 7"
    by (simp add: fixture_habits_def)
  have r2: "is_due_today fixture_iso fixture_db 738765 (fixture_habits ! 1) = Inr False"
    using C7_due_today [where d = fixture_db and habit = "fixture_habits ! 1"
        and c = "fixture_completions ! 3" and s = "''2023-08-30T15:00:00''"
        and parse = fixture_iso and dt = "naive 63829090800000000" and today = 738765]
      a2 b2 c2 d2 p2 by blast
  have g: "get_habits_to_complete_today fixture_iso fixture_db (naive 63829350000000000) 1
       = Inr [fixture_habits ! 0]"
    by (simp add: get_habits_to_complete_today_def is_due_today_def fixture_db_def
        fixture_habits_def fixture_completions_def fixture_iso_def date_of_def naive_def
        us_per_day_def)
  from n' r0 a1' b1 c1 d1 p1 r1 a2' b2 c2 d2 p2 r2 g show ?thesis by blast
qed

section \<open>Order invariance\<close>

lemma parse_dates_None_iff:
  "parse_dates parse cs = None
     \<longleftrightarrow> (\<exists>c \<in> set cs. \<exists>s. completed_date c = Some s \<and> parse s = None)"
  by (induction cs) (auto split: option.splits)

lemma parse_dates_Some_mset:
  "parse_dates parse cs = Some ds \<Longrightarrow>
     mset ds = image_mset (\<lambda>c. the (parse (the (completed_date c))))
                 (filter_mset (\<lambda>c. completed_date c \<noteq> None) (mset cs))"
  by (induction cs arbitrary: ds) (auto split: option.splits)

lemma sort_mset_cong:
  fixes xs ys :: "int list"
  assumes "mset xs = mset ys"
  shows "sort xs = sort ys"
proof -
  have "mset (sort ys) = mset xs" using assms by simp
  moreover have "sorted (sort ys)" by simp
  ultimately show ?thesis by (rule properties_for_sort)
qed

lemma py_sorted_mset_cong:
  assumes "mset ds' = mset ds"
  shows "py_sorted ds' = py_sorted ds"
proof -
  have "set ds' = set ds" using assms by (rule mset_eq_setD)
  then have m: "mixed_awareness ds' = mixed_awareness ds"
    by (simp add: mixed_awareness_def list_ex_iff)
  have "mset (map instant ds') = mset (map instant ds)" using assms by simp
  then have "sort (map instant ds') = sort (map instant ds)" by (rule sort_mset_cong)
  with m show ?thesis by (simp add: py_sorted_def)
qed

lemma longest_streak_of_completions_perm:
  assumes "mset cs' = mset cs"
  shows "longest_streak_of_completions parse cs' P = longest_streak_of_completions parse cs P"
proof -
  have emp: "cs' = [] \<longleftrightarrow> cs = []" using assms by (metis mset_zero_iff)
  have seteq: "set cs' = set cs" using assms by (rule mset_eq_setD)
  show ?thesis
  proof (cases "parse_dates parse cs")
    case None
    then have "parse_dates parse cs' = None"
      using seteq by (simp add: parse_dates_None_iff)
    then show ?thesis using None emp by (simp add: longest_streak_of_completions_def)
  next
    case (Some ds)
    then have "parse_dates parse cs \<noteq> None" by simp
    then have "parse_dates parse cs' \<noteq> None"
      unfolding parse_dates_None_iff seteq .
    then obtain ds' where s': "parse_dates parse cs' = Some ds'" by auto
    have "mset ds' = mset ds"
      using parse_dates_Some_mset [OF s'] parse_dates_Some_mset [OF Some] assms by simp
    then have "py_sorted ds' = py_sorted ds" by (rule py_sorted_mset_cong)
    then show ?thesis using Some s' emp by (simp add: longest_streak_of_completions_def)
  qed
qed

text \<open>
  C8. If the completions of a habit are retrieved in another order (the same rows, as a
  multiset), \<open>get_longest_streak_for_habit\<close> returns the same result; and the list it was
  given holds the same rows in the same order after the call.
\<close>

theorem C8_order_invariance:
  assumes "mset (db_get_completions d' hid) = mset (db_get_completions d hid)"
  shows "get_longest_streak_for_habit parse d' hid P = get_longest_streak_for_habit parse d hid P
       \<and> fst (longest_streak_call parse (db_get_completions d hid) P)
           = get_longest_streak_for_habit parse d hid P
       \<and> snd (longest_streak_call parse (db_get_completions d hid) P) = db_get_completions d hid"
  using longest_streak_of_completions_perm [OF assms]
  by (simp add: get_longest_streak_for_habit_def longest_streak_call_def)

theorem C8_order_invariance_witness:
  "mset (db_get_completions (fixture_db\<lparr>db_get_completions := \<lambda>i. rev (db_get_completions fixture_db i)\<rparr>) 1)
     = mset (db_get_completions fixture_db 1)
   \<and> db_get_completions (fixture_db\<lparr>db_get_completions := \<lambda>i. rev (db_get_completions fixture_db i)\<rparr>) 1
       = [fixture_completions ! 1, fixture_completions ! 0]
   \<and> db_get_completions fixture_db 1 = [fixture_completions ! 0, fixture_completions ! 1]
   \<and> get_longest_streak_for_habit fixture_iso fixture_db 1 1 = Inr 2
   \<and> get_longest_streak_for_habit fixture_iso
         (fixture_db\<lparr>db_get_completions := \<lambda>i. rev (db_get_completions fixture_db i)\<rparr>) 1 1 = Inr 2"
proof -
  let ?d' = "fixture_db\<lparr>db_get_completions := \<lambda>i. rev (db_get_completions fixture_db i)\<rparr>"
  have a: "mset (db_get_completions ?d' 1) = mset (db_get_completions fixture_db 1)"
    by simp
  have b: "db_get_completions ?d' 1 = [fixture_completions ! 1, fixture_completions ! 0]"
    by (simp add: fixture_db_def fixture_completions_def)
  have c: "db_get_completions fixture_db 1 = [fixture_completions ! 0, fixture_completions ! 1]"
    by (simp add: fixture_db_def fixture_completions_def)
  have v: "get_longest_streak_for_habit fixture_iso fixture_db 1 1 = Inr 2"
    by (simp add: fixture_db_def fixture_completions_def fixture_iso_def
        get_longest_streak_for_habit_def longest_streak_of_completions_def streak_of_dates_def
        model_eval)
  have "get_longest_streak_for_habit fixture_iso ?d' 1 1 = Inr 2"
    using C8_order_invariance [OF a, of fixture_iso 1] v by simp
  with a b c v show ?thesis by blast
qed

section \<open>Completions without a valid timestamp\<close>

text \<open>
  C4, as stated, fails: with one valid completion and one whose timestamp does not parse,
  \<open>get_longest_streak_for_habit\<close> returns 0, while the streak of the remaining valid
  completion is 1.
\<close>

theorem C4_malformed_counterexample:
  "completed_date (completions_malformed ! 0) = Some ''2023-08-30T15:00:00''
   \<and> fixture_iso ''2023-08-30T15:00:00'' = Some (naive 63829090800000000)
   \<and> completed_date (completions_malformed ! 1) = Some ''31/08/2023''
   \<and> fixture_iso ''31/08/2023'' = None
   \<and> get_longest_streak_for_habit fixture_iso (example_db completions_malformed) 1 1 = Inr 0
   \<and> get_longest_streak_for_habit fixture_iso (example_db [completions_malformed ! 0]) 1 1 = Inr 1
   \<and> get_longest_streak_for_habit fixture_iso (example_db completions_malformed) 1 1
       \<noteq> get_longest_streak_for_habit fixture_iso (example_db [completions_malformed ! 0]) 1 1"
  by (simp add: example_db_def completions_malformed_def fixture_iso_def
      get_longest_streak_for_habit_def longest_streak_of_completions_def streak_of_dates_def
      py_sorted_single)

lemma parse_dates_Some_nonempty:
  "parse_dates parse cs = Some ds \<Longrightarrow> \<exists>c \<in> set cs. completed_date c \<noteq> None \<Longrightarrow> ds \<noteq> []"
  by (induction cs arbitrary: ds) (auto split: option.splits)

text \<open>
  C4, amended. In \<open>get_longest_streak_for_habit\<close> a completion without a timestamp
  (\<open>None\<close>) is skipped silently: when every timestamp that is present parses and at least
  one completion has a timestamp, the function returns a value, and it is the value
  computed over only the completions that have a timestamp. When some timestamp that is
  present does not parse, no error is raised and the function returns 0 for the whole
  habit.
\<close>

theorem C4_missing_skipped_malformed_zero:
  "((\<forall>c \<in> set (db_get_completions d hid). \<forall>s. completed_date c = Some s \<longrightarrow> parse s \<noteq> None)
      \<and> (\<exists>c \<in> set (db_get_completions d hid). completed_date c \<noteq> None)
    \<longrightarrow> (\<exists>v. get_longest_streak_for_habit parse d hid P = Inr v)
      \<and> get_longest_streak_for_habit parse d hid P
          = longest_streak_of_completions parse
              (filter (\<lambda>c. completed_date c \<noteq> None) (db_get_completions d hid)) P)
   \<and> ((\<exists>c \<in> set (db_get_completions d hid). \<exists>s. completed_date c = Some s \<and> parse s = None)
    \<longrightarrow> get_longest_streak_for_habit parse d hid P = Inr 0)"
proof (intro conjI impI)
  let ?cs = "db_get_completions d hid"
  let ?fs = "filter (\<lambda>c. completed_date c \<noteq> None) ?cs"
  assume h: "(\<forall>c \<in> set ?cs. \<forall>s. completed_date c = Some s \<longrightarrow> parse s \<noteq> None)
      \<and> (\<exists>c \<in> set ?cs. completed_date c \<noteq> None)"
  then have ne: "?cs \<noteq> []" by auto
  have fne: "?fs \<noteq> []" using h by (auto simp: filter_empty_conv)
  have "parse_dates parse ?cs \<noteq> None"
    unfolding parse_dates_None_iff using h by blast
  then obtain ds where ds: "parse_dates parse ?cs = Some ds" by auto
  have dne: "ds \<noteq> []" using parse_dates_Some_nonempty [OF ds] h by blast
  show "\<exists>v. get_longest_streak_for_habit parse d hid P = Inr v"
  proof (cases "py_sorted ds")
    case (Inl e)
    then show ?thesis
      using ne ds
      by (simp add: get_longest_streak_for_habit_def longest_streak_of_completions_def)
  next
    case (Inr dates)
    have "length dates = length ds" using py_sorted_Inr [OF Inr] by simp
    then have sne: "dates \<noteq> []" using dne by (metis length_0_conv)
    have "get_longest_streak_for_habit parse d hid P = streak_of_dates P dates"
      using ne ds Inr
      by (simp add: get_longest_streak_for_habit_def longest_streak_of_completions_def)
    then show ?thesis using streak_of_dates_runs [OF sne, of P] by simp
  qed
  have "parse_dates parse ?fs = parse_dates parse ?cs"
    using parse_dates_filter [of parse ?cs] by simp
  then show "get_longest_streak_for_habit parse d hid P = longest_streak_of_completions parse ?fs P"
    using ne fne by (simp add: get_longest_streak_for_habit_def longest_streak_of_completions_def)
next
  let ?cs = "db_get_completions d hid"
  assume h: "\<exists>c \<in> set ?cs. \<exists>s. completed_date c = Some s \<and> parse s = None"
  then have "parse_dates parse ?cs = None" by (simp add: parse_dates_None_iff)
  then show "get_longest_streak_for_habit parse d hid P = Inr 0"
    by (simp add: get_longest_streak_for_habit_def longest_streak_of_completions_def)
qed

theorem C4_missing_skipped_malformed_zero_witness:
  "db_get_completions (example_db completions_missing) 1 = completions_missing
   \<and> map completed_date completions_missing
       = [Some ''2023-08-30T15:00:00'', None, Some ''2023-08-31T15:00:00'']
   \<and> fixture_iso ''2023-08-30T15:00:00'' = Some (naive 63829090800000000)
   \<and> fixture_iso ''2023-08-31T15:00:00'' = Some (naive 63829177200000000)
   \<and> filter (\<lambda>c. completed_date c \<noteq> None) (db_get_completions (example_db completions_missing) 1)
       = [completions_missing ! 0, completions_missing ! 2]
   \<and> longest_streak_of_completions fixture_iso [completions_missing ! 0, completions_missing ! 2] 1
       = Inr 2
   \<and> get_longest_streak_for_habit fixture_iso (example_db completions_missing) 1 1 = Inr 2
   \<and> (\<exists>c \<in> set (db_get_completions (example_db completions_malformed) 1).
         \<exists>s. completed_date c = Some s \<and> fixture_iso s = None)
   \<and> get_longest_streak_for_habit fixture_iso (example_db completions_malformed) 1 1 = Inr 0"
proof -
  have a: "\<forall>c \<in> set (db_get_completions (example_db completions_missing) 1).
       \<forall>s. completed_date c = Some s \<longrightarrow> fixture_iso s \<noteq> None"
    by (simp add: example_db_def completions_missing_def fixture_iso_def)
  have b: "\<exists>c \<in> set (db_get_completions (example_db completions_missing) 1). completed_date c \<noteq> None"
    by (simp add: example_db_def completions_missing_def)
  have f: "filter (\<lambda>c. completed_date c \<noteq> None) (db_get_completions (example_db completions_missing) 1)
       = [completions_missing ! 0, completions_missing ! 2]"
    by (simp add: example_db_def completions_missing_def)
  have v: "longest_streak_of_completions fixture_iso [completions_missing ! 0, completions_missing ! 2] 1
       = Inr 2"
    by (simp add: completions_missing_def fixture_iso_def longest_streak_of_completions_def
        streak_of_dates_def model_eval)
  have r: "get_longest_streak_for_habit fixture_iso (example_db completions_missing) 1 1 = Inr 2"
    using C4_missing_skipped_malformed_zero
      [where d = "example_db completions_missing" and hid = 1 and parse = fixture_iso and P = 1]
      a b f v by simp
  have m: "\<exists>c \<in> set (db_get_completions (example_db completions_malformed) 1).
         \<exists>s. completed_date c = Some s \<and> fixture_iso s = None"
    by (simp add: example_db_def completions_malformed_def fixture_iso_def)
  have z: "get_longest_streak_for_habit fixture_iso (example_db completions_malformed) 1 1 = Inr 0"
    using C4_missing_skipped_malformed_zero
      [where d = "example_db completions_malformed" and hid = 1 and parse = fixture_iso and P = 1]
      m by blast
  have g: "db_get_completions (example_db completions_missing) 1 = completions_missing"
    by (simp add: example_db_def)
  have k: "map completed_date completions_missing
       = [Some ''2023-08-30T15:00:00'', None, Some ''2023-08-31T15:00:00'']"
    by (simp add: completions_missing_def)
  have p1: "fixture_iso ''2023-08-30T15:00:00'' = Some (naive 63829090800000000)"
    by (simp add: fixture_iso_def)
  have p2: "fixture_iso ''2023-08-31T15:00:00'' = Some (naive 63829177200000000)"
    by (simp add: fixture_iso_def)
  from g k p1 p2 f v r m z show ?thesis by blast
qed

section \<open>Habit.calculate\_streak\<close>






end
